theory Spec2Isabelle
  imports Main "HOL-Library.Sublist"
begin

section \<open>Python strings\<close>

text \<open>
  A Python \<open>str\<close> is a sequence of Unicode code points: a list of natural numbers. \<open>lit\<close>
  writes an ASCII literal as such a sequence. Lengths and offsets count code points.
\<close>

type_synonym codepoint = nat

type_synonym pystr = "codepoint list"

definition lit :: "string \<Rightarrow> pystr" where
  "lit s = map of_char s"

text \<open>
  What the interpreter supplies. The case methods of \<open>str\<close> follow the Unicode character
  database, may depend on the context of a character and may change the length of a text;
  \<open>split\<close> and \<open>strip\<close> use the whitespace class of that database and \<open>re\<close> uses its word
  class for \<open>\w\<close>; \<open>int\<close> parses a text. None of this is code of the repository: the
  methods and classes are parameters, and the general properties below hold for an arbitrary
  such interpreter. Only the evaluations on ASCII examples fix one.
\<close>

record python =
  str_lower :: "pystr \<Rightarrow> pystr"
  str_upper :: "pystr \<Rightarrow> pystr"
  str_capitalize :: "pystr \<Rightarrow> pystr"
  str_isupper :: "pystr \<Rightarrow> bool"
  str_istitle :: "pystr \<Rightarrow> bool"
  chr_isspace :: "codepoint \<Rightarrow> bool"
  chr_isword :: "codepoint \<Rightarrow> bool"
  int_of_str :: "pystr \<Rightarrow> int option"

text \<open>\<open>str.strip()\<close>: leading and trailing whitespace removed.\<close>

definition py_strip :: "python \<Rightarrow> pystr \<Rightarrow> pystr" where
  "py_strip py s = rev (dropWhile (chr_isspace py) (rev (dropWhile (chr_isspace py) s)))"

text \<open>
  \<open>str.split()\<close> without argument: the maximal runs of non-whitespace characters. The
  second argument is the run being read.
\<close>

fun py_split_acc :: "python \<Rightarrow> pystr \<Rightarrow> pystr \<Rightarrow> pystr list" where
  "py_split_acc py w [] = (if w = [] then [] else [w])"
| "py_split_acc py w (c # cs) =
     (if chr_isspace py c
      then (if w = [] then py_split_acc py [] cs else w # py_split_acc py [] cs)
      else py_split_acc py (w @ [c]) cs)"

definition py_split :: "python \<Rightarrow> pystr \<Rightarrow> pystr list" where
  "py_split py s = py_split_acc py [] s"

text \<open>\<open>' '.join(ws)\<close>; the code point of the space is 32.\<close>

fun py_join :: "pystr list \<Rightarrow> pystr" where
  "py_join [] = []"
| "py_join [w] = w"
| "py_join (w # v # ws) = w @ 32 # py_join (v # ws)"

text \<open>
  \<open>re.findall(r'\b\w+\b', s)\<close>: the maximal runs of word characters, left to right.
\<close>

fun findall_words_acc :: "python \<Rightarrow> pystr \<Rightarrow> pystr \<Rightarrow> pystr list" where
  "findall_words_acc py w [] = (if w = [] then [] else [w])"
| "findall_words_acc py w (c # cs) =
     (if chr_isword py c then findall_words_acc py (w @ [c]) cs
      else (if w = [] then findall_words_acc py [] cs else w # findall_words_acc py [] cs))"

definition findall_words :: "python \<Rightarrow> pystr \<Rightarrow> pystr list" where
  "findall_words py s = findall_words_acc py [] s"

text \<open>
  \<open>s.find(w)\<close>: the lowest index at which \<open>w\<close> occurs in \<open>s\<close>, or \<open>-1\<close>. The third
  argument is the index of the position being tried.
\<close>

fun py_find_from :: "pystr \<Rightarrow> pystr \<Rightarrow> int \<Rightarrow> int" where
  "py_find_from [] w i = (if w = [] then i else - 1)"
| "py_find_from (c # cs) w i = (if prefix w (c # cs) then i else py_find_from cs w (i + 1))"

definition py_find :: "pystr \<Rightarrow> pystr \<Rightarrow> int" where
  "py_find s w = py_find_from s w 0"

text \<open>
  \<open>s.replace(old, new)\<close>: every non-overlapping occurrence of \<open>old\<close>, found left to
  right, replaced by \<open>new\<close>. With an empty \<open>old\<close>, Python puts \<open>new\<close> before every
  character and at the end.
\<close>

function replace_scan :: "pystr \<Rightarrow> pystr \<Rightarrow> pystr \<Rightarrow> pystr" where
  "replace_scan s old new =
     (if s = [] then []
      else if old \<noteq> [] \<and> prefix old s then new @ replace_scan (drop (length old) s) old new
      else hd s # replace_scan (tl s) old new)"
  by pat_completeness auto
termination
  by (relation "measure (\<lambda>(s, old, new). length s)") auto

declare replace_scan.simps [simp del]

definition py_replace :: "pystr \<Rightarrow> pystr \<Rightarrow> pystr \<Rightarrow> pystr" where
  "py_replace s old new =
     (if old = [] then new @ concat (map (\<lambda>c. c # new) s) else replace_scan s old new)"

text \<open>
  Slices \<open>s[:i]\<close> and \<open>s[j:]\<close> with Python's treatment of a negative or too large
  index: a negative index counts from the end, and the result is clamped to the string.
\<close>

definition slice_index :: "pystr \<Rightarrow> int \<Rightarrow> nat" where
  "slice_index s i = (if i < 0 then nat (int (length s) + i) else nat i)"

definition slice_to :: "pystr \<Rightarrow> int \<Rightarrow> pystr" where
  "slice_to s i = take (slice_index s i) s"

definition slice_from :: "pystr \<Rightarrow> int \<Rightarrow> pystr" where
  "slice_from s j = drop (slice_index s j) s"


text \<open>
  \<open>str(n)\<close> of a Python integer: its decimal digits (code points 48 to 57), after a minus
  sign (45) when it is negative.
\<close>

definition digit_char :: "nat \<Rightarrow> codepoint" where
  "digit_char d = 48 + d"

function str_nat :: "nat \<Rightarrow> pystr" where
  "str_nat n = (if n < 10 then [digit_char n] else str_nat (n div 10) @ [digit_char (n mod 10)])"
  by pat_completeness auto
termination
  by (relation "measure (\<lambda>n. n)") auto

declare str_nat.simps [simp del]

definition str_int :: "int \<Rightarrow> pystr" where
  "str_int i = (if i < 0 then 45 # str_nat (nat (- i)) else str_nat (nat i))"

section \<open>The interpreter on ASCII text\<close>


definition ascii_isupper_chr :: "codepoint \<Rightarrow> bool" where
  "ascii_isupper_chr c = (65 \<le> c \<and> c \<le> 90)"

definition ascii_islower_chr :: "codepoint \<Rightarrow> bool" where
  "ascii_islower_chr c = (97 \<le> c \<and> c \<le> 122)"

definition ascii_isdigit_chr :: "codepoint \<Rightarrow> bool" where
  "ascii_isdigit_chr c = (48 \<le> c \<and> c \<le> 57)"

definition ascii_upper_chr :: "codepoint \<Rightarrow> codepoint" where
  "ascii_upper_chr c = (if ascii_islower_chr c then c - 32 else c)"

definition ascii_lower_chr :: "codepoint \<Rightarrow> codepoint" where
  "ascii_lower_chr c = (if ascii_isupper_chr c then c + 32 else c)"

text \<open>Whitespace: tab, line feed, VT, FF, CR, the separators 28 to 31, space.\<close>

definition ascii_isspace :: "codepoint \<Rightarrow> bool" where
  "ascii_isspace c = ((9 \<le> c \<and> c \<le> 13) \<or> (28 \<le> c \<and> c \<le> 32))"

text \<open>Word characters: letters, digits and the underscore (95).\<close>

definition ascii_isword :: "codepoint \<Rightarrow> bool" where
  "ascii_isword c =
     (ascii_isupper_chr c \<or> ascii_islower_chr c \<or> ascii_isdigit_chr c \<or> c = 95)"

definition ascii_lower :: "pystr \<Rightarrow> pystr" where
  "ascii_lower s = map ascii_lower_chr s"

definition ascii_upper :: "pystr \<Rightarrow> pystr" where
  "ascii_upper s = map ascii_upper_chr s"

text \<open>\<open>capitalize\<close>: the first character upper-cased, every other one lower-cased.\<close>

fun ascii_capitalize :: "pystr \<Rightarrow> pystr" where
  "ascii_capitalize [] = []"
| "ascii_capitalize (c # cs) = ascii_upper_chr c # map ascii_lower_chr cs"

text \<open>\<open>isupper\<close>: no lower-case character and at least one upper-case character.\<close>

definition ascii_isupper :: "pystr \<Rightarrow> bool" where
  "ascii_isupper s = (\<not> list_ex ascii_islower_chr s \<and> list_ex ascii_isupper_chr s)"

text \<open>
  \<open>istitle\<close>, as the interpreter scans it: an upper-case character may only follow an
  uncased one, a lower-case character only a cased one, and there is at least one cased
  character. The first argument is \<open>previous_is_cased\<close>, the second \<open>cased\<close>.
\<close>

fun istitle_scan :: "bool \<Rightarrow> bool \<Rightarrow> pystr \<Rightarrow> bool" where
  "istitle_scan prev cased [] = cased"
| "istitle_scan prev cased (c # cs) =
     (if ascii_isupper_chr c then (if prev then False else istitle_scan True True cs)
      else if ascii_islower_chr c then (if \<not> prev then False else istitle_scan True True cs)
      else istitle_scan False cased cs)"

definition ascii_istitle :: "pystr \<Rightarrow> bool" where
  "ascii_istitle s = istitle_scan False False s"

text \<open>
  \<open>int\<close> of a text: surrounding whitespace stripped, an optional sign, then decimal digits
  with single underscores allowed between them. The second argument of the scan tells
  whether the character before was a digit.
\<close>

fun digits_scan :: "nat \<Rightarrow> bool \<Rightarrow> pystr \<Rightarrow> nat option" where
  "digits_scan n d [] = (if d then Some n else None)"
| "digits_scan n d (c # cs) =
     (if ascii_isdigit_chr c then digits_scan (10 * n + (c - 48)) True cs
      else if c = 95 \<and> d then digits_scan n False cs
      else None)"

definition ascii_int_of_str :: "pystr \<Rightarrow> int option" where
  "ascii_int_of_str s =
     (case rev (dropWhile ascii_isspace (rev (dropWhile ascii_isspace s))) of
        [] \<Rightarrow> None
      | c # cs \<Rightarrow>
          (if c = 45 then map_option (\<lambda>n. - int n) (digits_scan 0 False cs)
           else if c = 43 then map_option int (digits_scan 0 False cs)
           else map_option int (digits_scan 0 False (c # cs))))"

definition ascii_python :: python where
  "ascii_python =
     \<lparr>str_lower = ascii_lower, str_upper = ascii_upper, str_capitalize = ascii_capitalize,
      str_isupper = ascii_isupper, str_istitle = ascii_istitle, chr_isspace = ascii_isspace,
      chr_isword = ascii_isword, int_of_str = ascii_int_of_str\<rparr>"


section \<open>Python dictionaries\<close>

text \<open>
  A \<open>dict\<close> keeps its items in insertion order, which \<open>items()\<close> follows: it is the list
  of its items. Assigning to a key that is present changes the value in place, assigning
  to a new key appends the item.
\<close>

type_synonym ('k, 'v) pydict = "('k \<times> 'v) list"

fun dict_set :: "('k, 'v) pydict \<Rightarrow> 'k \<Rightarrow> 'v \<Rightarrow> ('k, 'v) pydict" where
  "dict_set [] k v = [(k, v)]"
| "dict_set ((k', v') # d) k v = (if k' = k then (k, v) # d else (k', v') # dict_set d k v)"

definition dict_get :: "('k, 'v) pydict \<Rightarrow> 'k \<Rightarrow> 'v option" where
  "dict_get d k = map_of d k"

definition dict_has :: "('k, 'v) pydict \<Rightarrow> 'k \<Rightarrow> bool" where
  "dict_has d k = (map_of d k \<noteq> None)"

definition dict_keys :: "('k, 'v) pydict \<Rightarrow> 'k list" where
  "dict_keys d = map fst d"

definition get_or :: "'a option \<Rightarrow> 'a \<Rightarrow> 'a" where
  "get_or x d = (case x of None \<Rightarrow> d | Some v \<Rightarrow> v)"

section \<open>The data model\<close>

text \<open>
  The dataclass \<open>Term\<close>. Its fields \<open>id\<close>, \<open>term\<close> and \<open>language\<close> are written
  \<open>term_id\<close>, \<open>term_text\<close> and \<open>term_language\<close> here.
\<close>

record Term =
  term_id :: int
  term_text :: pystr
  translation :: pystr
  domain :: pystr
  term_language :: pystr
  google_language_code :: "pystr option"

text \<open>
  The attributes of a \<open>TerminologyManager\<close>: \<open>terms\<close> is the Term Store, a dictionary
  from the normalized term text to its \<open>Term\<close>.
\<close>

record manager =
  terminology_source :: "pystr option"
  terms :: "(pystr, Term) pydict"
  language :: "pystr option"

text \<open>
  A candidate span, the dictionary with the keys \<open>'text'\<close>, \<open>'start'\<close>, \<open>'end'\<close> and, from
  the spaCy extractor only, \<open>'root'\<close>.
\<close>

record phrase =
  ph_text :: pystr
  ph_start :: int
  ph_end :: int
  ph_root :: "pystr option"

text \<open>
  What the code reads of a spaCy document: its noun chunks and its tokens.
\<close>

record chunk =
  chunk_text :: pystr
  start_char :: int
  end_char :: int
  chunk_root_text :: pystr

record token =
  tok_text :: pystr
  tok_idx :: int
  tok_pos :: pystr

record doc =
  noun_chunks :: "chunk list"
  doc_tokens :: "token list"

text \<open>
  The module-level state set once at import: either the spaCy model loaded, which gives
  the pipeline \<open>nlp\<close> and its stopword set, or loading raised and the \<open>except\<close> branch ran.
  spaCy itself is outside the repository: its pipeline and stopwords are parameters.
\<close>

datatype nlp_config =
  SpacyLoaded "pystr \<Rightarrow> doc" "pystr set"
| SpacyMissing

fun SPACY_AVAILABLE :: "nlp_config \<Rightarrow> bool" where
  "SPACY_AVAILABLE (SpacyLoaded nlp sw) = True"
| "SPACY_AVAILABLE SpacyMissing = False"

fun STOPWORDS :: "nlp_config \<Rightarrow> pystr set" where
  "STOPWORDS (SpacyLoaded nlp sw) = sw"
| "STOPWORDS SpacyMissing = {}"

section \<open>Loading the Term Store\<close>

text \<open>
  A cell of the data frame that \<open>pd.read_csv\<close> returns: a text, an integer, a finite
  float (given by the integer that \<open>int\<close> truncates it to and by its \<open>str\<close>), or the missing
  value NaN, which is what \<open>read_csv\<close> gives for an empty field. The code reads a cell
  through \<open>str\<close> and, for the id, through \<open>int\<close>, which raises on NaN and on a text that is
  no integer literal.
\<close>

datatype cell = CText pystr | CInt int | CFloat int pystr | CNaN

fun cell_str :: "cell \<Rightarrow> pystr" where
  "cell_str (CText s) = s"
| "cell_str (CInt i) = str_int i"
| "cell_str (CFloat i s) = s"
| "cell_str CNaN = lit ''nan''"

fun cell_int :: "python \<Rightarrow> cell \<Rightarrow> int option" where
  "cell_int py (CText s) = int_of_str py s"
| "cell_int py (CInt i) = Some i"
| "cell_int py (CFloat i s) = Some i"
| "cell_int py CNaN = None"

text \<open>One row: the cell of each column that the loader asks for, \<open>None\<close> when the file has
  no such column (then \<open>row.get\<close> returns its default).\<close>

record row =
  row_id :: "cell option"
  row_term :: "cell option"
  row_translation :: "cell option"
  row_domain :: "cell option"

text \<open>
  A CSV file as the loader sees it: the language code that the regular expression finds in
  the base name (if it matches), and the rows that \<open>pd.read_csv\<close> returns (\<open>None\<close> when it
  raises).
\<close>

record csv_file =
  lang_match :: "pystr option"
  csv_rows :: "row list option"

text \<open>
  The loop over the rows (lines 75 to 90). The result is the store and whether the loop
  ran to its end: a failing \<open>int\<close> conversion raises, which leaves the loop with the
  entries stored so far.
\<close>

fun load_rows ::
  "python \<Rightarrow> pystr \<Rightarrow> row list \<Rightarrow> (pystr, Term) pydict \<Rightarrow> (pystr, Term) pydict \<times> bool" where
  "load_rows py lang [] ts = (ts, True)"
| "load_rows py lang (r # rs) ts =
     (case (case row_id r of
              None \<Rightarrow> Some (int (length ts) + 1)
            | Some c \<Rightarrow> cell_int py c) of
        None \<Rightarrow> (ts, False)
      | Some tid \<Rightarrow>
          (let term_text = py_strip py (str_lower py (cell_str (get_or (row_term r) (CText []))));
               translation = cell_str (get_or (row_translation r) (CText []));
               domain = cell_str (get_or (row_domain r) (CText (lit ''general'')))
           in if term_text \<noteq> [] \<and> translation \<noteq> []
              then load_rows py lang rs
                     (dict_set ts term_text
                        \<lparr>term_id = tid, term_text = term_text, translation = translation,
                         domain = domain, term_language = lang, google_language_code = None\<rparr>)
              else load_rows py lang rs ts))"

text \<open>
  Lines 68 to 73: the language of a file, \<open>en\<close> unless the base name carries a code.
\<close>

definition file_language :: "python \<Rightarrow> csv_file \<Rightarrow> pystr" where
  "file_language py f = (case lang_match f of None \<Rightarrow> lit ''en'' | Some g \<Rightarrow> str_lower py g)"

text \<open>
  \<open>_load_single_file\<close>. When \<open>read_csv\<close> raises, nothing is loaded; when a row raises,
  the entries stored before it stay and the language of the manager is not set.
\<close>

definition load_single_file :: "python \<Rightarrow> csv_file \<Rightarrow> manager \<Rightarrow> manager" where
  "load_single_file py f self =
     (case csv_rows f of
        None \<Rightarrow> self
      | Some rows \<Rightarrow>
          (let res = load_rows py (file_language py f) rows (terms self)
           in if snd res then self\<lparr>terms := fst res, language := Some (file_language py f)\<rparr>
              else self\<lparr>terms := fst res\<rparr>))"

text \<open>\<open>_load_terminology\<close> on a directory: every CSV file in turn.\<close>

fun load_terminology :: "python \<Rightarrow> csv_file list \<Rightarrow> manager \<Rightarrow> manager" where
  "load_terminology py [] self = self"
| "load_terminology py (f # fs) self = load_terminology py fs (load_single_file py f self)"

section \<open>Lookup\<close>

text \<open>\<open>_remove_stopwords\<close>.\<close>

fun remove_stopwords :: "python \<Rightarrow> nlp_config \<Rightarrow> pystr \<Rightarrow> pystr" where
  "remove_stopwords py SpacyMissing phrase =
     py_join (filter (\<lambda>w. w \<notin> STOPWORDS SpacyMissing) (py_split py (str_lower py phrase)))"
| "remove_stopwords py (SpacyLoaded nlp sw) phrase =
     py_strip py (py_join (filter (\<lambda>w. w \<notin> STOPWORDS (SpacyLoaded nlp sw))
                             (map tok_text (doc_tokens (nlp (str_lower py phrase))))))"

text \<open>\<open>_find_matching_term\<close>: the exact lookup, then the lookup without stopwords.\<close>

definition find_matching_term :: "python \<Rightarrow> nlp_config \<Rightarrow> manager \<Rightarrow> pystr \<Rightarrow> Term option" where
  "find_matching_term py cfg self phrase =
     (let phrase_lower = py_strip py (str_lower py phrase)
      in if dict_has (terms self) phrase_lower then dict_get (terms self) phrase_lower
         else (let cleaned_phrase = remove_stopwords py cfg phrase_lower
               in if cleaned_phrase \<noteq> [] \<and> dict_has (terms self) cleaned_phrase
                  then dict_get (terms self) cleaned_phrase
                  else None))"

section \<open>Candidate spans\<close>

text \<open>
  \<open>_extract_noun_phrases\<close>. Without spaCy: every word of the lower-cased text that is a
  key of the store, with the offsets that \<open>find\<close> gives for it. With spaCy: the noun
  chunks, then every noun or proper noun token whose offset no chunk covers.
\<close>

definition covered_spans :: "phrase list \<Rightarrow> int set" where
  "covered_spans nps = (\<Union>np \<in> set nps. {ph_start np ..< ph_end np})"

fun extract_noun_phrases :: "python \<Rightarrow> nlp_config \<Rightarrow> manager \<Rightarrow> pystr \<Rightarrow> phrase list" where
  "extract_noun_phrases py SpacyMissing self txt =
     map (\<lambda>word. \<lparr>ph_text = word, ph_start = py_find (str_lower py txt) word,
                   ph_end = py_find (str_lower py txt) word + int (length word), ph_root = None\<rparr>)
         (filter (\<lambda>word. dict_has (terms self) word) (findall_words py (str_lower py txt)))"
| "extract_noun_phrases py (SpacyLoaded nlp sw) self txt =
     (let d = nlp txt;
          noun_phrases = map (\<lambda>c. \<lparr>ph_text = chunk_text c, ph_start = start_char c,
                                    ph_end = end_char c, ph_root = Some (chunk_root_text c)\<rparr>)
                             (noun_chunks d)
      in noun_phrases @
         map (\<lambda>t. \<lparr>ph_text = tok_text t, ph_start = tok_idx t,
                    ph_end = tok_idx t + int (length (tok_text t)), ph_root = Some (tok_text t)\<rparr>)
             (filter (\<lambda>t. (tok_pos t = lit ''PROPN'' \<or> tok_pos t = lit ''NOUN'')
                           \<and> tok_idx t \<notin> covered_spans noun_phrases)
                     (doc_tokens d)))"

section \<open>Preprocessing\<close>

text \<open>The placeholder of a term: \<open>f"<{term_obj.id}>"\<close>.\<close>

definition placeholder_of :: "Term \<Rightarrow> pystr" where
  "placeholder_of t = lit ''<'' @ str_int (term_id t) @ lit ''>''"

text \<open>
  Lines 180 to 186: the phrases that resolve to a term, sorted by start offset, highest
  first. Python's sort is stable, also with \<open>reverse=True\<close>: phrases with the same start
  keep their order.
\<close>

definition matching_phrases ::
  "python \<Rightarrow> nlp_config \<Rightarrow> manager \<Rightarrow> phrase list \<Rightarrow> phrase list" where
  "matching_phrases py cfg self nps =
     sort_key (\<lambda>p. - ph_start p)
       (filter (\<lambda>p. find_matching_term py cfg self (ph_text p) \<noteq> None) nps)"

text \<open>
  The replacement loop (lines 192 to 205) over the sorted phrases; its state is
  \<open>preprocessed_text\<close>, \<open>replacements\<close> and \<open>original_cases\<close>.
\<close>

type_synonym encoded = "pystr \<times> (pystr, Term) pydict \<times> (pystr, pystr) pydict"

definition splice :: "pystr \<Rightarrow> phrase \<Rightarrow> pystr \<Rightarrow> pystr" where
  "splice txt p placeholder = slice_to txt (ph_start p) @ placeholder @ slice_from txt (ph_end p)"

fun encode_loop :: "python \<Rightarrow> nlp_config \<Rightarrow> manager \<Rightarrow> phrase list \<Rightarrow> encoded \<Rightarrow> encoded" where
  "encode_loop py cfg self [] st = st"
| "encode_loop py cfg self (p # ps) (txt, replacements, original_cases) =
     (case find_matching_term py cfg self (ph_text p) of
        None \<Rightarrow> encode_loop py cfg self ps (txt, replacements, original_cases)
      | Some term_obj \<Rightarrow>
          encode_loop py cfg self ps
            (splice txt p (placeholder_of term_obj),
             dict_set replacements (placeholder_of term_obj) term_obj,
             dict_set original_cases (placeholder_of term_obj) (ph_text p)))"

text \<open>
  \<open>preprocess_text\<close>. The method receives the manager and can assign to its attributes,
  so the manager is returned beside the result.
\<close>

definition preprocess_text ::
  "python \<Rightarrow> nlp_config \<Rightarrow> manager \<Rightarrow> pystr \<Rightarrow> encoded \<times> manager" where
  "preprocess_text py cfg self txt =
     (if terms self = [] then ((txt, [], []), self)
      else (encode_loop py cfg self
              (matching_phrases py cfg self (extract_noun_phrases py cfg self txt)) (txt, [], []),
            self))"

text \<open>
  The placeholders that the loop generates, one for each phrase it processes, in the
  order of the loop (the values of the variable \<open>placeholder\<close> at line 195).
\<close>

definition generated_placeholders ::
  "python \<Rightarrow> nlp_config \<Rightarrow> manager \<Rightarrow> pystr \<Rightarrow> pystr list" where
  "generated_placeholders py cfg self txt =
     (if terms self = [] then []
      else concat (map (\<lambda>p. case find_matching_term py cfg self (ph_text p) of
                               None \<Rightarrow> [] | Some term_obj \<Rightarrow> [placeholder_of term_obj])
                       (matching_phrases py cfg self (extract_noun_phrases py cfg self txt))))"

text \<open>
  The shape of a placeholder token: an opening bracket (code point 60), a text without
  brackets, a closing bracket (62). Every \<open>"<" + str(id) + ">"\<close> has it.
\<close>

definition placeholder_shaped :: "pystr \<Rightarrow> bool" where
  "placeholder_shaped k =
     (case k of
        [] \<Rightarrow> False
      | c # cs \<Rightarrow> c = 60 \<and> cs \<noteq> [] \<and> last cs = 62
                 \<and> list_all (\<lambda>x. x \<noteq> 60 \<and> x \<noteq> 62) (butlast cs))"



section \<open>Postprocessing\<close>

text \<open>Lines 229 to 235: the translation in the case pattern of the original text.\<close>

definition preserve_case :: "python \<Rightarrow> pystr \<Rightarrow> pystr \<Rightarrow> pystr" where
  "preserve_case py original_text tr =
     (if original_text \<noteq> [] then
        (if str_isupper py original_text then str_upper py tr
         else if str_istitle py original_text then str_capitalize py tr
         else if str_isupper py [hd original_text] then str_capitalize py tr
         else tr)
      else tr)"

text \<open>The loop over \<open>replacements.items()\<close>, and \<open>postprocess_text\<close>.\<close>

fun restore_loop ::
  "python \<Rightarrow> (pystr \<times> Term) list \<Rightarrow> (pystr, pystr) pydict \<Rightarrow> pystr \<Rightarrow> pystr" where
  "restore_loop py [] original_cases result = result"
| "restore_loop py ((placeholder, term_obj) # items) original_cases result =
     restore_loop py items original_cases
       (py_replace result placeholder
          (preserve_case py (get_or (dict_get original_cases placeholder) [])
             (translation term_obj)))"

definition postprocess_text ::
  "python \<Rightarrow> manager \<Rightarrow> pystr \<Rightarrow> (pystr, Term) pydict \<Rightarrow> (pystr, pystr) pydict
     \<Rightarrow> pystr \<times> manager" where
  "postprocess_text py self txt replacements original_cases =
     (restore_loop py replacements original_cases txt, self)"

section \<open>Example data\<close>

text \<open>The store of the end-to-end scenario: the single term \<open>server\<close>, translated \<open>servidor\<close>.\<close>

definition server_term :: Term where
  "server_term = \<lparr>term_id = 1, term_text = lit ''server'', translation = lit ''servidor'',
     domain = lit ''general'', term_language = lit ''en'', google_language_code = None\<rparr>"

definition server_manager :: manager where
  "server_manager = \<lparr>terminology_source = None, terms = [(lit ''server'', server_term)],
     language = Some (lit ''en'')\<rparr>"

definition empty_manager :: manager where
  "empty_manager = \<lparr>terminology_source = None, terms = [], language = None\<rparr>"

text \<open>
  A spaCy pipeline for the examples: it knows four texts, with the noun chunks and the
  tokens that the English model gives for them, and returns an empty document otherwise.
\<close>

definition example_nlp :: "pystr \<Rightarrow> doc" where
  "example_nlp s =
     (if s = lit ''server to server'' then
        \<lparr>noun_chunks =
           [\<lparr>chunk_text = lit ''server'', start_char = 0, end_char = 6,
              chunk_root_text = lit ''server''\<rparr>,
            \<lparr>chunk_text = lit ''server'', start_char = 10, end_char = 16,
              chunk_root_text = lit ''server''\<rparr>],
         doc_tokens =
           [\<lparr>tok_text = lit ''server'', tok_idx = 0, tok_pos = lit ''NOUN''\<rparr>,
            \<lparr>tok_text = lit ''to'', tok_idx = 7, tok_pos = lit ''ADP''\<rparr>,
            \<lparr>tok_text = lit ''server'', tok_idx = 10, tok_pos = lit ''NOUN''\<rparr>]\<rparr>
      else if s = lit ''The printer is down'' then
        \<lparr>noun_chunks =
           [\<lparr>chunk_text = lit ''The printer'', start_char = 0, end_char = 11,
              chunk_root_text = lit ''printer''\<rparr>],
         doc_tokens =
           [\<lparr>tok_text = lit ''The'', tok_idx = 0, tok_pos = lit ''DET''\<rparr>,
            \<lparr>tok_text = lit ''printer'', tok_idx = 4, tok_pos = lit ''NOUN''\<rparr>,
            \<lparr>tok_text = lit ''is'', tok_idx = 12, tok_pos = lit ''AUX''\<rparr>,
            \<lparr>tok_text = lit ''down'', tok_idx = 15, tok_pos = lit ''ADV''\<rparr>]\<rparr>
      else if s = lit ''the printer'' then
        \<lparr>noun_chunks =
           [\<lparr>chunk_text = lit ''the printer'', start_char = 0, end_char = 11,
              chunk_root_text = lit ''printer''\<rparr>],
         doc_tokens =
           [\<lparr>tok_text = lit ''the'', tok_idx = 0, tok_pos = lit ''DET''\<rparr>,
            \<lparr>tok_text = lit ''printer'', tok_idx = 4, tok_pos = lit ''NOUN''\<rparr>]\<rparr>
      else if s = lit ''the server'' then
        \<lparr>noun_chunks =
           [\<lparr>chunk_text = lit ''the server'', start_char = 0, end_char = 10,
              chunk_root_text = lit ''server''\<rparr>],
         doc_tokens =
           [\<lparr>tok_text = lit ''the'', tok_idx = 0, tok_pos = lit ''DET''\<rparr>,
            \<lparr>tok_text = lit ''server'', tok_idx = 4, tok_pos = lit ''NOUN''\<rparr>]\<rparr>
      else \<lparr>noun_chunks = [], doc_tokens = []\<rparr>)"

definition example_spacy :: nlp_config where
  "example_spacy =
     SpacyLoaded example_nlp (set [lit ''the'', lit ''a'', lit ''is'', lit ''to''])"



text \<open>
  A glossary file \<open>terminologies_ES.csv\<close> with the columns \<open>id\<close>, \<open>term\<close> and
  \<open>translation\<close> and three records: \<open>1,Server,servidor\<close>, then \<open>2,printer,\<close> with an empty
  translation field, then \<open>3,,impresora\<close> with an empty term field. \<open>read_csv\<close> gives NaN for
  the two empty fields.
\<close>

definition glossary_rows :: "row list" where
  "glossary_rows =
     [\<lparr>row_id = Some (CInt 1), row_term = Some (CText (lit ''Server'')),
       row_translation = Some (CText (lit ''servidor'')), row_domain = None\<rparr>,
      \<lparr>row_id = Some (CInt 2), row_term = Some (CText (lit ''printer'')),
       row_translation = Some CNaN, row_domain = None\<rparr>,
      \<lparr>row_id = Some (CInt 3), row_term = Some CNaN,
       row_translation = Some (CText (lit ''impresora'')), row_domain = None\<rparr>]"

definition glossary_file :: csv_file where
  "glossary_file = \<lparr>lang_match = Some (lit ''ES''), csv_rows = Some glossary_rows\<rparr>"

text \<open>
  A file whose first record has an empty id field: \<open>,router,enrutador\<close>, then
  \<open>2,switch,conmutador\<close>. With a missing value in it, the id column is read as floats.
\<close>

definition missing_id_file :: csv_file where
  "missing_id_file =
     \<lparr>lang_match = None,
      csv_rows = Some
        [\<lparr>row_id = Some CNaN, row_term = Some (CText (lit ''router'')),
          row_translation = Some (CText (lit ''enrutador'')), row_domain = None\<rparr>,
         \<lparr>row_id = Some (CFloat 2 (lit ''2.0'')), row_term = Some (CText (lit ''switch'')),
          row_translation = Some (CText (lit ''conmutador'')), row_domain = None\<rparr>]\<rparr>"

text \<open>
  A file without an id column, so that every id is the default \<open>len(self.terms) + 1\<close>, with
  the records \<open>Server,servidor\<close>, \<open>server,el servidor\<close> and \<open>Database,base de datos\<close>; and the
  manager that loading it into an empty manager gives.
\<close>

definition no_id_file :: csv_file where
  "no_id_file =
     \<lparr>lang_match = None,
      csv_rows = Some
        [\<lparr>row_id = None, row_term = Some (CText (lit ''Server'')),
          row_translation = Some (CText (lit ''servidor'')), row_domain = None\<rparr>,
         \<lparr>row_id = None, row_term = Some (CText (lit ''server'')),
          row_translation = Some (CText (lit ''el servidor'')), row_domain = None\<rparr>,
         \<lparr>row_id = None, row_term = Some (CText (lit ''Database'')),
          row_translation = Some (CText (lit ''base de datos'')), row_domain = None\<rparr>]\<rparr>"

definition no_id_manager :: manager where
  "no_id_manager = load_single_file ascii_python no_id_file empty_manager"

section \<open>Case-preserving restoration\<close>









lemma case_branches:
  "ascii_istitle (lit ''(Database)'') \<and> \<not> ascii_isupper [hd (lit ''(Database)'')]"
  "\<not> ascii_istitle (lit ''DataBase'') \<and> ascii_isupper [hd (lit ''DataBase'')]"
  by code_simp+




section \<open>The empty store, and texts without a match\<close>

text \<open>
  Claim C5. With no term in the store, \<open>preprocess_text\<close> returns the text unchanged with
  two empty mappings, and \<open>postprocess_text\<close> with those mappings returns any text unchanged.
\<close>

theorem empty_store_identity:
  "terms self = [] \<Longrightarrow>
     fst (preprocess_text py cfg self txt) = (txt, [], [])
     \<and> fst (postprocess_text py self other (fst (snd (fst (preprocess_text py cfg self txt))))
              (snd (snd (fst (preprocess_text py cfg self txt))))) = other"
  by (simp add: preprocess_text_def postprocess_text_def)

theorem empty_store_identity_witness:
  "terms empty_manager = []
   \<and> fst (preprocess_text ascii_python SpacyMissing empty_manager (lit ''The Server is down''))
       = (lit ''The Server is down'', [], [])
   \<and> fst (postprocess_text ascii_python empty_manager (lit ''El <1> no responde'')
            (fst (snd (fst (preprocess_text ascii_python SpacyMissing empty_manager
                              (lit ''The Server is down'')))))
            (snd (snd (fst (preprocess_text ascii_python SpacyMissing empty_manager
                              (lit ''The Server is down''))))))
       = lit ''El <1> no responde''"
proof -
  have e: "terms empty_manager = []" by (simp add: empty_manager_def)
  show ?thesis
    using e empty_store_identity[OF e, of ascii_python SpacyMissing "lit ''The Server is down''"
        "lit ''El <1> no responde''"]
    by blast
qed

text \<open>
  Claim C3. When no candidate span of the text resolves to a stored term,
  \<open>preprocess_text\<close> returns the text unchanged, with an empty placeholder-to-term mapping
  and an empty placeholder-to-original-text mapping.
\<close>

theorem no_match_unchanged:
  assumes "\<forall>p \<in> set (extract_noun_phrases py cfg self txt).
             find_matching_term py cfg self (ph_text p) = None"
  shows "fst (preprocess_text py cfg self txt) = (txt, [], [])"
proof -
  have "filter (\<lambda>p. find_matching_term py cfg self (ph_text p) \<noteq> None)
          (extract_noun_phrases py cfg self txt) = []"
    using assms by (simp add: filter_empty_conv)
  then have "matching_phrases py cfg self (extract_noun_phrases py cfg self txt) = []"
    by (simp add: matching_phrases_def)
  then show ?thesis by (simp add: preprocess_text_def)
qed

lemma printer_spans:
  "extract_noun_phrases ascii_python example_spacy server_manager (lit ''The printer is down'') =
     [\<lparr>ph_text = lit ''The printer'', ph_start = 0, ph_end = 11,
       ph_root = Some (lit ''printer'')\<rparr>]"
  by code_simp

lemma printer_unknown:
  "find_matching_term ascii_python example_spacy server_manager (lit ''The printer'') = None"
  by code_simp

theorem no_match_unchanged_witness:
  "extract_noun_phrases ascii_python example_spacy server_manager (lit ''The printer is down'') =
     [\<lparr>ph_text = lit ''The printer'', ph_start = 0, ph_end = 11,
       ph_root = Some (lit ''printer'')\<rparr>]
   \<and> find_matching_term ascii_python example_spacy server_manager (lit ''The printer'') = None
   \<and> fst (preprocess_text ascii_python example_spacy server_manager (lit ''The printer is down''))
       = (lit ''The printer is down'', [], [])"
proof -
  have h: "\<forall>p \<in> set (extract_noun_phrases ascii_python example_spacy server_manager
                        (lit ''The printer is down'')).
       find_matching_term ascii_python example_spacy server_manager (ph_text p) = None"
    unfolding printer_spans by (simp add: printer_unknown)
  show ?thesis
    using printer_spans printer_unknown no_match_unchanged[OF h] by blast
qed

section \<open>The store is only read\<close>

text \<open>
  Claim C9. \<open>preprocess_text\<close> and \<open>postprocess_text\<close> return the manager as they received
  it: the Term Store, with every \<open>Term\<close> in it, is the same after the call as before.
\<close>

theorem store_unchanged:
  "snd (preprocess_text py cfg self txt) = self
   \<and> snd (postprocess_text py self txt' replacements original_cases) = self
   \<and> terms (snd (preprocess_text py cfg self txt)) = terms self
   \<and> terms (snd (postprocess_text py self txt' replacements original_cases)) = terms self"
  by (simp add: preprocess_text_def postprocess_text_def)

theorem store_unchanged_witness:
  "terms (snd (preprocess_text ascii_python SpacyMissing server_manager
                 (lit ''The Server is down'')))
     = [(lit ''server'', server_term)]
   \<and> terms (snd (postprocess_text ascii_python server_manager (lit ''The <1> is down'')
                   [(lit ''<1>'', server_term)] [(lit ''<1>'', lit ''Server'')]))
     = [(lit ''server'', server_term)]"
proof -
  have "terms server_manager = [(lit ''server'', server_term)]"
    by (simp add: server_manager_def)
  then show ?thesis
    using store_unchanged[of ascii_python SpacyMissing server_manager
        "lit ''The Server is down''" "lit ''The <1> is down''" "[(lit ''<1>'', server_term)]"
        "[(lit ''<1>'', lit ''Server'')]"]
    by simp
qed

section \<open>Stopword removal without spaCy\<close>

text \<open>
  Claim C7, evaluated on the code. When the spaCy model does not load, the \<open>except\<close>
  branch sets the stopword set to the empty set, so the fallback of \<open>_remove_stopwords\<close>
  filters nothing, on any interpreter: it joins again all the words it has split. On ASCII
  text, \<open>the server\<close> keeps its stopword and is not found in a store that holds \<open>server\<close>,
  while the same lookup succeeds when spaCy is loaded.
\<close>

theorem fallback_keeps_stopwords:
  "STOPWORDS SpacyMissing = {}
   \<and> remove_stopwords py SpacyMissing phrase = py_join (py_split py (str_lower py phrase))
   \<and> remove_stopwords ascii_python SpacyMissing (lit ''the server'') = lit ''the server''
   \<and> find_matching_term ascii_python SpacyMissing server_manager (lit ''the server'') = None
   \<and> find_matching_term ascii_python example_spacy server_manager (lit ''the server'')
       = Some server_term"
proof -
  have a: "remove_stopwords ascii_python SpacyMissing (lit ''the server'') = lit ''the server''"
    by code_simp
  have b: "find_matching_term ascii_python SpacyMissing server_manager (lit ''the server'') = None"
    by code_simp
  have c: "find_matching_term ascii_python example_spacy server_manager (lit ''the server'')
             = Some server_term"
    by code_simp
  show ?thesis using a b c by simp
qed

theorem fallback_keeps_stopwords_witness:
  "remove_stopwords ascii_python SpacyMissing (lit ''a server is down'')
     = py_join (py_split ascii_python (str_lower ascii_python (lit ''a server is down'')))"
  using fallback_keeps_stopwords[of ascii_python "lit ''a server is down''"] by blast

section \<open>The fallback phrase extractor\<close>

lemma findall_words_acc_sublist:
  "x \<in> set (findall_words_acc py w s) \<Longrightarrow> sublist x (w @ s)"
proof (induction s arbitrary: w)
  case Nil
  then show ?case by (auto split: if_splits)
next
  case (Cons c cs)
  show ?case
  proof (cases "chr_isword py c")
    case True
    with Cons.prems have "x \<in> set (findall_words_acc py (w @ [c]) cs)" by simp
    from Cons.IH[OF this] show ?thesis by simp
  next
    case False
    with Cons.prems have "x = w \<or> x \<in> set (findall_words_acc py [] cs)"
      by (auto split: if_splits)
    then show ?thesis
    proof
      assume "x = w" then show ?thesis by simp
    next
      assume "x \<in> set (findall_words_acc py [] cs)"
      from Cons.IH[OF this] have "sublist x cs" by simp
      then obtain ps ss where "cs = ps @ x @ ss" by (auto simp: sublist_def)
      then have "w @ c # cs = (w @ c # ps) @ x @ ss" by simp
      then show ?thesis unfolding sublist_def by blast
    qed
  qed
qed

lemma py_find_from_first:
  "sublist w s \<Longrightarrow>
     \<exists>k. py_find_from s w i = i + int k \<and> prefix w (drop k s)
          \<and> (\<forall>j<k. \<not> prefix w (drop j s))"
proof (induction s arbitrary: i)
  case Nil
  then show ?case by simp
next
  case (Cons c cs)
  show ?case
  proof (cases "prefix w (c # cs)")
    case True
    then have "py_find_from (c # cs) w i = i + int 0 \<and> prefix w (drop 0 (c # cs))
          \<and> (\<forall>j<0. \<not> prefix w (drop j (c # cs)))" by simp
    then show ?thesis by blast
  next
    case False
    with Cons.prems have "sublist w cs" by (simp add: sublist_Cons_right)
    from Cons.IH[OF this, of "i + 1"] obtain k where
      k: "py_find_from cs w (i + 1) = i + 1 + int k" "prefix w (drop k cs)"
         "\<forall>j<k. \<not> prefix w (drop j cs)" by blast
    have "\<forall>j<Suc k. \<not> prefix w (drop j (c # cs))"
    proof (intro allI impI)
      fix j assume "j < Suc k"
      then show "\<not> prefix w (drop j (c # cs))"
        using False k(3) by (cases j) auto
    qed
    moreover have "py_find_from (c # cs) w i = i + int (Suc k)"
      using False k(1) by simp
    moreover have "prefix w (drop (Suc k) (c # cs))" using k(2) by simp
    ultimately show ?thesis by blast
  qed
qed

lemma py_find_first:
  assumes "sublist w s"
  shows "0 \<le> py_find s w \<and> prefix w (drop (nat (py_find s w)) s)
         \<and> (\<forall>j < nat (py_find s w). \<not> prefix w (drop j s))"
proof -
  from py_find_from_first[OF assms, of 0] obtain k where
    "py_find s w = int k" "prefix w (drop k s)" "\<forall>j<k. \<not> prefix w (drop j s)"
    by (auto simp: py_find_def)
  then show ?thesis by simp
qed

text \<open>
  Claim C10. Without spaCy, a span emitted for a word starts at the first occurrence of
  that word in the lower-cased text (the offset that \<open>find\<close> returns, at which the word
  stands and before which it does not occur) and ends one word length later; spans with
  the same word have the same offsets; and every word of the lower-cased text that is a key
  of the store yields one span, so a word that occurs twice yields two spans with the
  offsets of its first occurrence.
\<close>

theorem fallback_spans_first_occurrence:
  assumes "p \<in> set (extract_noun_phrases py SpacyMissing self txt)"
  shows "0 \<le> ph_start p
     \<and> prefix (ph_text p) (drop (nat (ph_start p)) (str_lower py txt))
     \<and> (\<forall>j < nat (ph_start p). \<not> prefix (ph_text p) (drop j (str_lower py txt)))
     \<and> ph_start p = py_find (str_lower py txt) (ph_text p)
     \<and> ph_end p = ph_start p + int (length (ph_text p))
     \<and> (\<forall>q \<in> set (extract_noun_phrases py SpacyMissing self txt).
           ph_text q = ph_text p \<longrightarrow> ph_start q = ph_start p \<and> ph_end q = ph_end p)
     \<and> map ph_text (extract_noun_phrases py SpacyMissing self txt)
         = filter (dict_has (terms self)) (findall_words py (str_lower py txt))"
proof -
  from assms obtain word where
    w: "word \<in> set (findall_words py (str_lower py txt))"
    and p: "p = \<lparr>ph_text = word, ph_start = py_find (str_lower py txt) word,
                 ph_end = py_find (str_lower py txt) word + int (length word), ph_root = None\<rparr>"
    by auto
  from w have "sublist word (str_lower py txt)"
    using findall_words_acc_sublist[of word py "[]" "str_lower py txt"]
    by (simp add: findall_words_def)
  from py_find_first[OF this] have
    f: "0 \<le> py_find (str_lower py txt) word"
       "prefix word (drop (nat (py_find (str_lower py txt) word)) (str_lower py txt))"
       "\<forall>j < nat (py_find (str_lower py txt) word). \<not> prefix word (drop j (str_lower py txt))"
    by auto
  have same: "\<forall>q \<in> set (extract_noun_phrases py SpacyMissing self txt).
           ph_text q = ph_text p \<longrightarrow> ph_start q = ph_start p \<and> ph_end q = ph_end p"
    using p by auto
  have m: "map ph_text (extract_noun_phrases py SpacyMissing self txt)
         = filter (dict_has (terms self)) (findall_words py (str_lower py txt))"
    by (simp add: comp_def)
  show ?thesis using f same m p by simp
qed

lemma two_servers:
  "extract_noun_phrases ascii_python SpacyMissing server_manager
     (lit ''The server and the Server'') =
     [\<lparr>ph_text = lit ''server'', ph_start = 4, ph_end = 10, ph_root = None\<rparr>,
      \<lparr>ph_text = lit ''server'', ph_start = 4, ph_end = 10, ph_root = None\<rparr>]"
  by code_simp

lemma two_servers_lowered:
  "str_lower ascii_python (lit ''The server and the Server'') = lit ''the server and the server''"
  by code_simp

theorem fallback_spans_first_occurrence_witness:
  "extract_noun_phrases ascii_python SpacyMissing server_manager
     (lit ''The server and the Server'') =
     [\<lparr>ph_text = lit ''server'', ph_start = 4, ph_end = 10, ph_root = None\<rparr>,
      \<lparr>ph_text = lit ''server'', ph_start = 4, ph_end = 10, ph_root = None\<rparr>]
   \<and> prefix (lit ''server'') (drop 4 (lit ''the server and the server''))
   \<and> \<not> prefix (lit ''server'') (drop 3 (lit ''the server and the server''))
   \<and> py_find (lit ''the server and the server'') (lit ''server'') = 4"
proof -
  have "\<lparr>ph_text = lit ''server'', ph_start = 4, ph_end = 10, ph_root = None\<rparr>
          \<in> set (extract_noun_phrases ascii_python SpacyMissing server_manager
                   (lit ''The server and the Server''))"
    unfolding two_servers by simp
  from fallback_spans_first_occurrence[OF this] show ?thesis
    unfolding two_servers_lowered using two_servers by simp
qed

section \<open>Rightmost-first replacement\<close>


















section \<open>Decimal strings and placeholder tokens\<close>

lemma lit_brackets: "lit ''<'' = [60]" "lit ''>'' = [62]"
  by (simp_all add: lit_def)

lemma digit_char_inj: "digit_char a = digit_char b \<Longrightarrow> a = b"
  by (simp add: digit_char_def)

lemma str_nat_small: "n < 10 \<Longrightarrow> str_nat n = [digit_char n]"
  by (subst str_nat.simps) (simp only: if_True)

lemma str_nat_large: "\<not> n < 10 \<Longrightarrow> str_nat n = str_nat (n div 10) @ [digit_char (n mod 10)]"
  by (subst str_nat.simps) (simp only: if_False)

lemma str_nat_not_Nil: "str_nat n \<noteq> []"
  by (cases "n < 10") (simp_all add: str_nat_small str_nat_large)

lemma str_nat_digits: "c \<in> set (str_nat n) \<Longrightarrow> 48 \<le> c \<and> c \<le> 57"
proof (induction n rule: str_nat.induct)
  case (1 n)
  show ?case
  proof (cases "n < 10")
    case True
    then have "c = digit_char n" using "1.prems" by (simp add: str_nat_small)
    then show ?thesis using True by (simp add: digit_char_def)
  next
    case False
    then have "c \<in> set (str_nat (n div 10)) \<or> c = digit_char (n mod 10)"
      using "1.prems" by (auto simp: str_nat_large)
    then show ?thesis
    proof
      assume "c \<in> set (str_nat (n div 10))"
      then show ?thesis using "1.IH" False by simp
    next
      assume c: "c = digit_char (n mod 10)"
      have "n mod 10 < 10" by simp
      then show ?thesis unfolding c digit_char_def by linarith
    qed
  qed
qed

lemma str_nat_inj: "str_nat n = str_nat m \<Longrightarrow> n = m"
proof (induction n arbitrary: m rule: str_nat.induct)
  case (1 n)
  show ?case
  proof (cases "n < 10")
    case True
    show ?thesis
    proof (cases "m < 10")
      case mt: True
      from "1.prems" have "digit_char n = digit_char m"
        by (simp add: str_nat_small True mt)
      then show ?thesis by (rule digit_char_inj)
    next
      case False
      from "1.prems" have "[digit_char n] = str_nat (m div 10) @ [digit_char (m mod 10)]"
        by (simp add: str_nat_small[OF True] str_nat_large[OF False])
      then show ?thesis using str_nat_not_Nil[of "m div 10"] by simp
    qed
  next
    case False
    show ?thesis
    proof (cases "m < 10")
      case True
      from "1.prems" have "str_nat (n div 10) @ [digit_char (n mod 10)] = [digit_char m]"
        by (simp add: str_nat_small[OF True] str_nat_large[OF False])
      then show ?thesis using str_nat_not_Nil[of "n div 10"] by simp
    next
      case mf: False
      from "1.prems" have e: "str_nat (n div 10) = str_nat (m div 10)"
        and d: "digit_char (n mod 10) = digit_char (m mod 10)"
        by (simp_all add: str_nat_large[OF False] str_nat_large[OF mf])
      from "1.IH"[OF False e] have q: "n div 10 = m div 10" .
      have "n mod 10 = m mod 10" using d by (rule digit_char_inj)
      with q show ?thesis by (metis div_mult_mod_eq)
    qed
  qed
qed

lemma str_nat_no_minus: "hd (str_nat n) \<noteq> 45"
proof -
  have "hd (str_nat n) \<in> set (str_nat n)" using str_nat_not_Nil by simp
  from str_nat_digits[OF this] show ?thesis by auto
qed

lemma str_int_inj: "str_int i = str_int j \<Longrightarrow> i = j"
proof -
  assume e: "str_int i = str_int j"
  show ?thesis
  proof (cases "i < 0")
    case True
    show ?thesis
    proof (cases "j < 0")
      case jt: True
      from e have "str_nat (nat (- i)) = str_nat (nat (- j))"
        by (simp add: str_int_def True jt)
      then have "nat (- i) = nat (- j)" by (rule str_nat_inj)
      with True jt show ?thesis by simp
    next
      case False
      with True e have "45 # str_nat (nat (- i)) = str_nat (nat j)"
        by (simp add: str_int_def)
      then have "hd (str_nat (nat j)) = 45" by (metis list.sel(1))
      then show ?thesis using str_nat_no_minus by blast
    qed
  next
    case False
    show ?thesis
    proof (cases "j < 0")
      case True
      with False e have "str_nat (nat i) = 45 # str_nat (nat (- j))"
        by (simp add: str_int_def)
      then have "hd (str_nat (nat i)) = 45" by (metis list.sel(1))
      then show ?thesis using str_nat_no_minus by blast
    next
      case jf: False
      from e have "str_nat (nat i) = str_nat (nat j)"
        by (simp add: str_int_def False jf)
      then have "nat i = nat j" by (rule str_nat_inj)
      with False jf show ?thesis by simp
    qed
  qed
qed

lemma str_int_no_bracket: "c \<in> set (str_int i) \<Longrightarrow> c \<noteq> 60 \<and> c \<noteq> 62"
proof -
  assume c: "c \<in> set (str_int i)"
  then have "c = 45 \<or> c \<in> set (str_nat (nat (- i))) \<or> c \<in> set (str_nat (nat i))"
    by (auto simp: str_int_def split: if_splits)
  then show ?thesis using str_nat_digits[of c] by auto
qed

lemma takeWhile_until: "c \<notin> set xs \<Longrightarrow> takeWhile (\<lambda>x. x \<noteq> c) (xs @ c # ys) = xs"
  by (induction xs) auto

lemma bracket_body_eq:
  assumes "62 \<notin> set d" "62 \<notin> set e" "prefix (d @ [62]) (e @ [62] @ b)"
  shows "d = e"
proof -
  from assms(3) obtain r where r: "e @ 62 # b = d @ 62 # r"
    by (auto simp: prefix_def)
  have "takeWhile (\<lambda>x. x \<noteq> 62) (e @ 62 # b) = e"
    using assms(2) by (rule takeWhile_until)
  moreover have "takeWhile (\<lambda>x. x \<noteq> 62) (d @ 62 # r) = d"
    using assms(1) by (rule takeWhile_until)
  ultimately show ?thesis using r by simp
qed

lemma placeholder_shaped_iff:
  "placeholder_shaped k \<longleftrightarrow> (\<exists>d. k = 60 # d @ [62] \<and> 60 \<notin> set d \<and> 62 \<notin> set d)"
proof
  assume "placeholder_shaped k"
  then obtain cs where k: "k = 60 # cs" "cs \<noteq> []" "last cs = 62"
    "list_all (\<lambda>x. x \<noteq> 60 \<and> x \<noteq> 62) (butlast cs)"
    by (auto simp: placeholder_shaped_def split: list.splits)
  then have "cs = butlast cs @ [62]" by (metis append_butlast_last_id)
  then have "k = 60 # butlast cs @ [62]" using k(1) by simp
  moreover have "60 \<notin> set (butlast cs) \<and> 62 \<notin> set (butlast cs)"
    using k(4) by (auto simp: list_all_iff)
  ultimately show "\<exists>d. k = 60 # d @ [62] \<and> 60 \<notin> set d \<and> 62 \<notin> set d"
    by blast
next
  assume "\<exists>d. k = 60 # d @ [62] \<and> 60 \<notin> set d \<and> 62 \<notin> set d"
  then show "placeholder_shaped k"
    by (auto simp: placeholder_shaped_def list_all_iff)
qed

lemma placeholder_of_shaped: "placeholder_shaped (placeholder_of t)"
  unfolding placeholder_shaped_iff placeholder_of_def lit_brackets
  using str_int_no_bracket[of _ "term_id t"] by auto

lemma shaped_sublist_eq:
  assumes "placeholder_shaped k" "placeholder_shaped k'" "sublist k k'"
  shows "k = k'"
proof -
  from assms(1) obtain d where d: "k = 60 # d @ [62]" "60 \<notin> set d" "62 \<notin> set d"
    unfolding placeholder_shaped_iff by blast
  from assms(2) obtain e where e: "k' = 60 # e @ [62]" "60 \<notin> set e" "62 \<notin> set e"
    unfolding placeholder_shaped_iff by blast
  from assms(3) obtain ps ss where s: "k' = ps @ k @ ss" by (auto simp: sublist_def)
  show ?thesis
  proof (cases ps)
    case Nil
    with s d e have "prefix (d @ [62]) (e @ [62] @ [])" by (simp add: prefix_def)
    from bracket_body_eq[OF d(3) e(3) this] show ?thesis using d e by simp
  next
    case (Cons x xs)
    with s d e have "e @ [62] = xs @ 60 # d @ [62] @ ss" by simp
    then have "60 \<in> set (e @ [62])" by (metis in_set_conv_decomp)
    then show ?thesis using e(2) by simp
  qed
qed

lemma placeholder_of_eq_iff: "placeholder_of t = placeholder_of u \<longleftrightarrow> term_id t = term_id u"
  by (auto simp: placeholder_of_def dest: str_int_inj)

text \<open>
  The token format is not ambiguous in itself: the tokens of two ids are equal only when
  the ids are, and a token occurs inside another only when they are equal.
\<close>

lemma placeholder_tokens_by_id:
  "(placeholder_of t = placeholder_of u \<longleftrightarrow> term_id t = term_id u)
   \<and> (sublist (placeholder_of t) (placeholder_of u) \<longleftrightarrow> term_id t = term_id u)"
proof -
  have "sublist (placeholder_of t) (placeholder_of u) \<Longrightarrow> term_id t = term_id u"
    using shaped_sublist_eq[OF placeholder_of_shaped placeholder_of_shaped, of t u]
    by (simp add: placeholder_of_eq_iff)
  moreover have "term_id t = term_id u \<Longrightarrow> sublist (placeholder_of t) (placeholder_of u)"
    by (simp add: placeholder_of_def)
  ultimately show ?thesis using placeholder_of_eq_iff by blast
qed

section \<open>Placeholders of one call\<close>

lemma dict_keys_dict_set: "set (dict_keys (dict_set d k v)) = insert k (set (dict_keys d))"
  by (induction d k v rule: dict_set.induct) (auto simp: dict_keys_def)

lemma encode_loop_keys:
  "set (dict_keys (fst (snd (encode_loop py cfg self ps (t, r, c))))) =
     set (dict_keys r) \<union>
     set (concat (map (\<lambda>p. case find_matching_term py cfg self (ph_text p) of
                               None \<Rightarrow> [] | Some term_obj \<Rightarrow> [placeholder_of term_obj]) ps))"
proof (induction ps arbitrary: t r c)
  case Nil
  then show ?case by simp
next
  case (Cons p ps)
  then show ?case
    by (cases "find_matching_term py cfg self (ph_text p)") (auto simp: dict_keys_dict_set)
qed

lemma preprocess_keys:
  "set (dict_keys (fst (snd (fst (preprocess_text py cfg self txt)))))
     = set (generated_placeholders py cfg self txt)"
proof (cases "terms self = []")
  case True
  then show ?thesis
    by (simp add: preprocess_text_def generated_placeholders_def dict_keys_def)
next
  case False
  have "set (dict_keys ([] :: (pystr, Term) pydict)) = {}" by (simp add: dict_keys_def)
  then show ?thesis
    using False encode_loop_keys[of py cfg self
        "matching_phrases py cfg self (extract_noun_phrases py cfg self txt)" "txt" "[]" "[]"]
    by (simp only: preprocess_text_def generated_placeholders_def if_False fst_conv
        Un_empty_left)
qed

lemma find_matching_term_stored:
  assumes "find_matching_term py cfg self phrase = Some t"
  shows "t \<in> snd ` set (terms self)"
proof -
  let ?a = "py_strip py (str_lower py phrase)"
  let ?b = "remove_stopwords py cfg ?a"
  have "find_matching_term py cfg self phrase = dict_get (terms self) ?a
        \<or> find_matching_term py cfg self phrase = dict_get (terms self) ?b
        \<or> find_matching_term py cfg self phrase = None"
    by (simp add: find_matching_term_def Let_def)
  then obtain k where "dict_get (terms self) k = Some t"
    using assms by (metis option.distinct(1))
  then have "(k, t) \<in> set (terms self)"
    unfolding dict_get_def by (rule map_of_SomeD)
  then show ?thesis by (rule image_eqI[rotated]) simp
qed

lemma generated_placeholders_stored:
  assumes "k \<in> set (generated_placeholders py cfg self txt)"
  shows "\<exists>t. t \<in> snd ` set (terms self) \<and> k = placeholder_of t"
proof -
  let ?F = "\<lambda>p. case find_matching_term py cfg self (ph_text p) of
                 None \<Rightarrow> [] | Some term_obj \<Rightarrow> [placeholder_of term_obj]"
  let ?L = "matching_phrases py cfg self (extract_noun_phrases py cfg self txt)"
  have g: "generated_placeholders py cfg self txt
             = (if terms self = [] then [] else concat (map ?F ?L))"
    unfolding generated_placeholders_def by (rule refl)
  have "k \<in> set (concat (map ?F ?L))"
  proof (cases "terms self = []")
    case True
    with assms g have "k \<in> set []" by (simp only: if_True simp_thms)
    then show ?thesis by (simp only: list.set empty_iff)
  next
    case False
    with assms g show ?thesis by (simp only: if_False simp_thms)
  qed
  then have "k \<in> (\<Union>x \<in> set (map ?F ?L). set x)" by (simp only: set_concat)
  then obtain xs where xs: "xs \<in> set (map ?F ?L)" "k \<in> set xs" by (rule UN_E)
  from xs(1) have "xs \<in> ?F ` set ?L" by (simp only: set_map)
  then obtain p :: phrase where p: "xs = ?F p" by blast
  obtain t where t: "find_matching_term py cfg self (ph_text p) = Some t" "k = placeholder_of t"
  proof (cases "find_matching_term py cfg self (ph_text p)")
    case None
    with xs(2) p show ?thesis by simp
  next
    case (Some u)
    with xs(2) p have "k = placeholder_of u" by simp
    with Some that show ?thesis by blast
  qed
  have "t \<in> snd ` set (terms self)" using t(1) by (rule find_matching_term_stored)
  then show ?thesis using t(2) by (intro exI[of _ t] conjI)
qed

lemma no_id_manager_eq:
  "no_id_manager =
     \<lparr>terminology_source = None,
      terms =
        [(lit ''server'',
          \<lparr>term_id = 2, term_text = lit ''server'', translation = lit ''el servidor'',
           domain = lit ''general'', term_language = lit ''en'', google_language_code = None\<rparr>),
         (lit ''database'',
          \<lparr>term_id = 2, term_text = lit ''database'', translation = lit ''base de datos'',
           domain = lit ''general'', term_language = lit ''en'', google_language_code = None\<rparr>)],
      language = Some (lit ''en'')\<rparr>"
  by code_simp

lemma no_id_store:
  "map (\<lambda>kv. (fst kv, term_id (snd kv), translation (snd kv))) (terms no_id_manager)
     = [(lit ''server'', 2, lit ''el servidor''), (lit ''database'', 2, lit ''base de datos'')]"
  unfolding no_id_manager_eq by simp

lemma no_id_spans:
  "extract_noun_phrases ascii_python SpacyMissing no_id_manager (lit ''server and database'') =
     [\<lparr>ph_text = lit ''server'', ph_start = 0, ph_end = 6, ph_root = None\<rparr>,
      \<lparr>ph_text = lit ''database'', ph_start = 11, ph_end = 19, ph_root = None\<rparr>]"
  unfolding no_id_manager_eq by code_simp

lemma no_id_tokens:
  "generated_placeholders ascii_python SpacyMissing no_id_manager (lit ''server and database'')
     = [lit ''<2>'', lit ''<2>'']"
  unfolding no_id_manager_eq by code_simp

lemma no_id_preprocess:
  "fst (preprocess_text ascii_python SpacyMissing no_id_manager (lit ''server and database'')) =
     (lit ''<2> and <2>'',
      [(lit ''<2>'',
        \<lparr>term_id = 2, term_text = lit ''server'', translation = lit ''el servidor'',
         domain = lit ''general'', term_language = lit ''en'', google_language_code = None\<rparr>)],
      [(lit ''<2>'', lit ''server'')])"
  unfolding no_id_manager_eq by code_simp

lemma no_id_restore:
  "fst (postprocess_text ascii_python no_id_manager (lit ''<2> and <2>'')
          [(lit ''<2>'',
            \<lparr>term_id = 2, term_text = lit ''server'', translation = lit ''el servidor'',
             domain = lit ''general'', term_language = lit ''en'',
             google_language_code = None\<rparr>)]
          [(lit ''<2>'', lit ''server'')])
     = lit ''el servidor and el servidor''"
  unfolding no_id_manager_eq by code_simp

text \<open>
  Claim C2, evaluated on the code. A file without an id column and with the records
  \<open>Server\<close>, \<open>server\<close> and \<open>Database\<close> is loaded: the second record replaces the first under
  the key \<open>server\<close>, so the store still has one entry when the third record takes its
  default id, and the terms \<open>server\<close> and \<open>database\<close> both have the id 2. In
  \<open>server and database\<close> the two words are two spans that resolve to these two terms, and
  both get the token \<open><2>\<close>: the generated tokens are not distinct, the text becomes
  \<open><2> and <2>\<close>, and restoring it gives \<open>el servidor and el servidor\<close>.
\<close>

theorem default_ids_collide:
  "map (\<lambda>kv. (fst kv, term_id (snd kv), translation (snd kv))) (terms no_id_manager)
     = [(lit ''server'', 2, lit ''el servidor''), (lit ''database'', 2, lit ''base de datos'')]
   \<and> extract_noun_phrases ascii_python SpacyMissing no_id_manager (lit ''server and database'')
     = [\<lparr>ph_text = lit ''server'', ph_start = 0, ph_end = 6, ph_root = None\<rparr>,
        \<lparr>ph_text = lit ''database'', ph_start = 11, ph_end = 19, ph_root = None\<rparr>]
   \<and> generated_placeholders ascii_python SpacyMissing no_id_manager (lit ''server and database'')
     = [lit ''<2>'', lit ''<2>'']
   \<and> \<not> distinct (generated_placeholders ascii_python SpacyMissing no_id_manager
                     (lit ''server and database''))
   \<and> fst (fst (preprocess_text ascii_python SpacyMissing no_id_manager
                  (lit ''server and database''))) = lit ''<2> and <2>''
   \<and> fst (postprocess_text ascii_python no_id_manager
          (fst (fst (preprocess_text ascii_python SpacyMissing no_id_manager
                       (lit ''server and database''))))
          (fst (snd (fst (preprocess_text ascii_python SpacyMissing no_id_manager
                            (lit ''server and database'')))))
          (snd (snd (fst (preprocess_text ascii_python SpacyMissing no_id_manager
                            (lit ''server and database''))))))
     = lit ''el servidor and el servidor''"
proof -
  have d: "\<not> distinct (generated_placeholders ascii_python SpacyMissing no_id_manager
                           (lit ''server and database''))"
    unfolding no_id_tokens by simp
  have e: "fst (fst (preprocess_text ascii_python SpacyMissing no_id_manager
                       (lit ''server and database''))) = lit ''<2> and <2>''"
    unfolding no_id_preprocess by (rule fst_conv)
  have r: "fst (postprocess_text ascii_python no_id_manager
          (fst (fst (preprocess_text ascii_python SpacyMissing no_id_manager
                       (lit ''server and database''))))
          (fst (snd (fst (preprocess_text ascii_python SpacyMissing no_id_manager
                            (lit ''server and database'')))))
          (snd (snd (fst (preprocess_text ascii_python SpacyMissing no_id_manager
                            (lit ''server and database''))))))
     = lit ''el servidor and el servidor''"
    unfolding no_id_preprocess fst_conv snd_conv by (rule no_id_restore)
  show ?thesis
    by (rule conjI[OF no_id_store conjI[OF no_id_spans conjI[OF no_id_tokens
        conjI[OF d conjI[OF e r]]]]])
qed

section \<open>Placeholders that the mapping does not hold\<close>

lemma replace_scan_Nil: "replace_scan [] k new = []"
  by (subst replace_scan.simps) simp

lemma replace_scan_match:
  "k \<noteq> [] \<Longrightarrow> prefix k (c # cs) \<Longrightarrow>
     replace_scan (c # cs) k new = new @ replace_scan (drop (length k) (c # cs)) k new"
  by (subst replace_scan.simps) simp

lemma replace_scan_skip:
  "\<not> prefix k (c # cs) \<Longrightarrow> replace_scan (c # cs) k new = c # replace_scan cs k new"
  by (subst replace_scan.simps) simp

lemma replace_scan_absent:
  "\<not> sublist k s \<Longrightarrow> replace_scan s k new = s"
proof (induction s)
  case Nil
  then show ?case by (simp add: replace_scan_Nil)
next
  case (Cons c cs)
  then have "\<not> prefix k (c # cs)" "\<not> sublist k cs"
    by (simp_all add: sublist_Cons_right)
  then show ?case using Cons.IH by (simp add: replace_scan_skip)
qed

lemma py_replace_absent: "\<not> sublist k s \<Longrightarrow> py_replace s k new = s"
proof -
  assume a: "\<not> sublist k s"
  then have "k \<noteq> []" by auto
  then show ?thesis using a by (simp add: py_replace_def replace_scan_absent)
qed

lemma restore_loop_absent:
  "\<forall>k \<in> set (dict_keys items). \<not> sublist k s \<Longrightarrow> restore_loop py items cases s = s"
proof (induction items)
  case Nil
  then show ?case by simp
next
  case (Cons x items)
  obtain k t where x: "x = (k, t)" by (cases x)
  from Cons.prems have "\<not> sublist k s" and "\<forall>k \<in> set (dict_keys items). \<not> sublist k s"
    by (simp_all add: x dict_keys_def)
  then show ?case using Cons.IH by (simp add: x py_replace_absent)
qed

lemma replace_scan_no_open:
  assumes "hd k = 60" "k \<noteq> []"
  shows "60 \<notin> set x \<Longrightarrow> replace_scan (x @ b) k new = x @ replace_scan b k new"
proof (induction x)
  case Nil
  then show ?case by simp
next
  case (Cons c x)
  have "\<not> prefix k (c # x @ b)"
  proof
    assume "prefix k (c # x @ b)"
    then have "hd k = c" using assms(2) by (cases k) auto
    then show False using assms(1) Cons.prems by simp
  qed
  then show ?case using Cons by (simp add: replace_scan_skip)
qed

lemma replace_scan_other_token:
  assumes k: "placeholder_shaped k" and t: "placeholder_shaped tok" and ne: "k \<noteq> tok"
  shows "replace_scan (tok @ b) k new = tok @ replace_scan b k new"
proof -
  from k obtain d where d: "k = 60 # d @ [62]" "60 \<notin> set d" "62 \<notin> set d"
    unfolding placeholder_shaped_iff by blast
  from t obtain e where e: "tok = 60 # e @ [62]" "60 \<notin> set e" "62 \<notin> set e"
    unfolding placeholder_shaped_iff by blast
  have "\<not> prefix k (60 # (e @ [62]) @ b)"
  proof
    assume "prefix k (60 # (e @ [62]) @ b)"
    then have "prefix (d @ [62]) (e @ [62] @ b)" by (simp add: d)
    from bracket_body_eq[OF d(3) e(3) this] show False using ne d e by simp
  qed
  then have "replace_scan (60 # (e @ [62]) @ b) k new
               = 60 # replace_scan ((e @ [62]) @ b) k new"
    by (rule replace_scan_skip)
  also have "replace_scan ((e @ [62]) @ b) k new = (e @ [62]) @ replace_scan b k new"
    by (rule replace_scan_no_open) (simp_all add: d e)
  finally show ?thesis by (simp add: e)
qed

lemma replace_scan_before_open:
  assumes k: "placeholder_shaped k"
  shows "replace_scan (a @ 60 # s) k new
           = replace_scan a k new @ replace_scan (60 # s) k new"
proof (induction "length a" arbitrary: a rule: less_induct)
  case less
  from k obtain d where d: "k = 60 # d @ [62]" "60 \<notin> set d" "62 \<notin> set d"
    unfolding placeholder_shaped_iff by blast
  have kn: "k \<noteq> []" using d by simp
  show ?case
  proof (cases a)
    case Nil
    then show ?thesis by (simp add: replace_scan_Nil)
  next
    case (Cons c cs)
    show ?thesis
    proof (cases "prefix k a")
      case True
      then have len: "length k \<le> length a" by (rule prefix_length_le)
      have pa: "prefix k (c # cs @ 60 # s)"
        using True Cons by (metis append_Cons prefix_prefix)
      have shorter: "length (drop (length k) a) < length a"
        using kn Cons by simp
      have dr: "drop (length k) (a @ 60 # s) = drop (length k) a @ 60 # s"
        using len by simp
      have "replace_scan (a @ 60 # s) k new
              = new @ replace_scan (drop (length k) (a @ 60 # s)) k new"
        using replace_scan_match[OF kn pa, of new] by (simp only: Cons append_Cons)
      then have e1: "replace_scan (a @ 60 # s) k new
              = new @ replace_scan (drop (length k) a @ 60 # s) k new"
        by (simp only: dr)
      have e2: "replace_scan (drop (length k) a @ 60 # s) k new
              = replace_scan (drop (length k) a) k new @ replace_scan (60 # s) k new"
        using less[OF shorter] .
      have e3: "replace_scan a k new = new @ replace_scan (drop (length k) a) k new"
        using replace_scan_match[OF kn, of c cs new] True by (simp only: Cons)
      show ?thesis by (simp only: e1 e2 e3 append_assoc)
    next
      case False
      have np: "\<not> prefix k (c # cs @ 60 # s)"
      proof
        assume "prefix k (c # cs @ 60 # s)"
        then have "prefix k (a @ 60 # s)" using Cons by simp
        then obtain us where us: "k = a @ us" "prefix us (60 # s)"
          using False by (auto simp: prefix_append)
        have "us \<noteq> []" using us(1) False by auto
        then obtain us' where "us = 60 # us'" using us(2) by (cases us) auto
        then have "d @ [62] = cs @ 60 # us'" using us(1) d(1) Cons by simp
        then have "60 \<in> set (d @ [62])" by (metis in_set_conv_decomp)
        then show False using d(2) by simp
      qed
      have f: "\<not> prefix k (c # cs)" using False Cons by simp
      have "length cs < length a" using Cons by simp
      from less[OF this] show ?thesis
        using replace_scan_skip[OF np, of new] replace_scan_skip[OF f, of new] Cons by simp
    qed
  qed
qed

lemma py_replace_around_token:
  assumes "placeholder_shaped k" "placeholder_shaped tok" "k \<noteq> tok"
  shows "py_replace (a @ tok @ b) k new = py_replace a k new @ tok @ py_replace b k new"
proof -
  from assms(2) obtain r where r: "tok = 60 # r"
    unfolding placeholder_shaped_iff by blast
  from assms(1) have kn: "k \<noteq> []" unfolding placeholder_shaped_iff by auto
  have "replace_scan (a @ 60 # (r @ b)) k new
          = replace_scan a k new @ replace_scan (60 # (r @ b)) k new"
    using assms(1) by (rule replace_scan_before_open)
  then have "replace_scan (a @ tok @ b) k new
          = replace_scan a k new @ replace_scan (tok @ b) k new"
    by (simp add: r)
  then show ?thesis
    using replace_scan_other_token[OF assms] kn by (simp add: py_replace_def)
qed

lemma restore_loop_around_token:
  assumes "placeholder_shaped tok"
  shows "list_all placeholder_shaped (dict_keys items) \<Longrightarrow> tok \<notin> set (dict_keys items) \<Longrightarrow>
     restore_loop py items cases (a @ tok @ b)
       = restore_loop py items cases a @ tok @ restore_loop py items cases b"
proof (induction items arbitrary: a b)
  case Nil
  then show ?case by simp
next
  case (Cons x items)
  obtain k t where x: "x = (k, t)" by (cases x)
  from Cons.prems have k: "placeholder_shaped k" "k \<noteq> tok"
    and rest: "list_all placeholder_shaped (dict_keys items)" "tok \<notin> set (dict_keys items)"
    by (auto simp: x dict_keys_def)
  show ?case
    unfolding x restore_loop.simps py_replace_around_token[OF k(1) assms k(2)]
    using Cons.IH[OF rest] by simp
qed

lemma preprocess_keys_shaped:
  "list_all placeholder_shaped (dict_keys (fst (snd (fst (preprocess_text py cfg self txt)))))"
proof -
  have "\<forall>k \<in> set (dict_keys (fst (snd (fst (preprocess_text py cfg self txt))))).
          placeholder_shaped k"
    unfolding preprocess_keys
    using generated_placeholders_stored placeholder_of_shaped by blast
  then show ?thesis by (simp add: list_all_iff)
qed

text \<open>
  Claim C6. \<open>postprocess_text\<close> changes a text only where a key of the mapping occurs: a
  text in which no key occurs is returned as it is. When the keys are placeholder tokens
  (as the keys of every mapping that \<open>preprocess_text\<close> returns are), a placeholder-shaped
  token of the text that is not a key stays in the output verbatim, between the
  postprocessed text before it and the postprocessed text after it. The result is a
  string in every case: no branch raises.
\<close>

theorem only_mapped_placeholders_replaced:
  "((\<forall>k \<in> set (dict_keys replacements). \<not> sublist k s) \<longrightarrow>
       fst (postprocess_text py self s replacements original_cases) = s)
   \<and> (list_all placeholder_shaped (dict_keys replacements) \<and> placeholder_shaped tok
        \<and> tok \<notin> set (dict_keys replacements) \<longrightarrow>
       fst (postprocess_text py self (a @ tok @ b) replacements original_cases)
         = fst (postprocess_text py self a replacements original_cases) @ tok
           @ fst (postprocess_text py self b replacements original_cases))
   \<and> list_all placeholder_shaped
        (dict_keys (fst (snd (fst (preprocess_text py cfg self' source_text)))))"
  using restore_loop_absent restore_loop_around_token preprocess_keys_shaped
  by (simp add: postprocess_text_def)

lemma server_mapping_shaped:
  "list_all placeholder_shaped (dict_keys [(lit ''<1>'', server_term)])"
  "placeholder_shaped (lit ''<2>'')"
  by code_simp+

lemma server_mapping_parts:
  "fst (postprocess_text ascii_python server_manager [] [(lit ''<1>'', server_term)]
         [(lit ''<1>'', lit ''Server'')]) = []"
  "fst (postprocess_text ascii_python server_manager (lit '' is up, <1> is down'')
         [(lit ''<1>'', server_term)] [(lit ''<1>'', lit ''Server'')])
     = lit '' is up, Servidor is down''"
  by code_simp+

lemma server_key_absent: "\<not> sublist (lit ''<1>'') (lit ''<2> is up'')"
  by code_simp

lemma server_text_parts:
  "[] @ lit ''<2>'' @ lit '' is up, <1> is down'' = lit ''<2> is up, <1> is down''"
  "[] @ lit ''<2>'' @ lit '' is up, Servidor is down'' = lit ''<2> is up, Servidor is down''"
  by (simp_all add: lit_def)

theorem only_mapped_placeholders_replaced_witness:
  "fst (postprocess_text ascii_python server_manager (lit ''<2> is up, <1> is down'')
          [(lit ''<1>'', server_term)] [(lit ''<1>'', lit ''Server'')])
     = lit ''<2> is up, Servidor is down''
   \<and> fst (postprocess_text ascii_python server_manager (lit ''<2> is up'')
          [(lit ''<1>'', server_term)] [(lit ''<1>'', lit ''Server'')]) = lit ''<2> is up''"
proof -
  note t = only_mapped_placeholders_replaced[of "[(lit ''<1>'', server_term)]"
      "lit ''<2> is up''" ascii_python server_manager "[(lit ''<1>'', lit ''Server'')]"
      "lit ''<2>''" "[]" "lit '' is up, <1> is down''"]
  have n: "lit ''<2>'' \<notin> set (dict_keys [(lit ''<1>'', server_term)])"
    by (simp add: dict_keys_def lit_def)
  have a: "\<forall>k \<in> set (dict_keys [(lit ''<1>'', server_term)]). \<not> sublist k (lit ''<2> is up'')"
    using server_key_absent by (simp add: dict_keys_def)
  have "fst (postprocess_text ascii_python server_manager
               ([] @ lit ''<2>'' @ lit '' is up, <1> is down'')
               [(lit ''<1>'', server_term)] [(lit ''<1>'', lit ''Server'')])
        = fst (postprocess_text ascii_python server_manager [] [(lit ''<1>'', server_term)]
                 [(lit ''<1>'', lit ''Server'')]) @ lit ''<2>''
          @ fst (postprocess_text ascii_python server_manager (lit '' is up, <1> is down'')
                   [(lit ''<1>'', server_term)] [(lit ''<1>'', lit ''Server'')])"
    using t server_mapping_shaped n by blast
  then have first: "fst (postprocess_text ascii_python server_manager
               (lit ''<2> is up, <1> is down'')
               [(lit ''<1>'', server_term)] [(lit ''<1>'', lit ''Server'')])
        = lit ''<2> is up, Servidor is down''"
    unfolding server_mapping_parts server_text_parts .
  have second: "fst (postprocess_text ascii_python server_manager (lit ''<2> is up'')
          [(lit ''<1>'', server_term)] [(lit ''<1>'', lit ''Server'')]) = lit ''<2> is up''"
    using t a by blast
  show ?thesis using first second by (rule conjI)
qed

section \<open>Loading: records with an empty field\<close>

lemma glossary_loaded:
  "map (\<lambda>kv. (fst kv, term_id (snd kv), translation (snd kv)))
       (terms (load_single_file ascii_python glossary_file empty_manager))
     = [(lit ''server'', 1, lit ''servidor''), (lit ''printer'', 2, lit ''nan''),
        (lit ''nan'', 3, lit ''impresora'')]"
  by code_simp

lemma missing_id_loaded:
  "terms (load_single_file ascii_python missing_id_file empty_manager) = []"
  by code_simp

lemma missing_translation_row:
  "fst (load_rows py lang
          [\<lparr>row_id = None, row_term = Some (CText w), row_translation = Some CNaN,
            row_domain = None\<rparr>] [])
     = (if py_strip py (str_lower py w) = [] then []
        else [(py_strip py (str_lower py w),
               \<lparr>term_id = 1, term_text = py_strip py (str_lower py w),
                translation = lit ''nan'', domain = lit ''general'', term_language = lang,
                google_language_code = None\<rparr>)])"
  by (simp add: Let_def get_or_def lit_def)

text \<open>
  Claim C8, evaluated on the code. \<open>read_csv\<close> gives NaN for an empty field, and \<open>str\<close> of
  NaN is the text \<open>nan\<close>, which is not empty: the test at line 81 does not skip a record
  with an empty term or an empty translation. On every interpreter a record with an empty
  translation field is stored with the translation \<open>nan\<close>. Of the glossary file, the record
  \<open>2,printer,\<close> is stored with the translation \<open>nan\<close> and the record \<open>3,,impresora\<close> under the
  key \<open>nan\<close>. A record with an empty id field raises in \<open>int\<close>, which ends the loading of
  its file: no record of the second file is stored, not even the complete one after it.
\<close>

theorem empty_fields_are_kept:
  "cell_str CNaN = lit ''nan''
   \<and> fst (load_rows py lang
          [\<lparr>row_id = None, row_term = Some (CText w), row_translation = Some CNaN,
            row_domain = None\<rparr>] [])
       = (if py_strip py (str_lower py w) = [] then []
          else [(py_strip py (str_lower py w),
                 \<lparr>term_id = 1, term_text = py_strip py (str_lower py w),
                  translation = lit ''nan'', domain = lit ''general'', term_language = lang,
                  google_language_code = None\<rparr>)])
   \<and> map (\<lambda>kv. (fst kv, term_id (snd kv), translation (snd kv)))
         (terms (load_single_file ascii_python glossary_file empty_manager))
       = [(lit ''server'', 1, lit ''servidor''), (lit ''printer'', 2, lit ''nan''),
          (lit ''nan'', 3, lit ''impresora'')]
   \<and> terms (load_single_file ascii_python missing_id_file empty_manager) = []"
proof -
  have a: "cell_str CNaN = lit ''nan''" by simp
  show ?thesis
    by (rule conjI[OF a conjI[OF missing_translation_row
          conjI[OF glossary_loaded missing_id_loaded]]])
qed

theorem empty_fields_are_kept_witness:
  "fst (load_rows ascii_python (lit ''es'')
          [\<lparr>row_id = None, row_term = Some (CText (lit ''printer'')),
            row_translation = Some CNaN, row_domain = None\<rparr>] [])
     = [(lit ''printer'',
         \<lparr>term_id = 1, term_text = lit ''printer'', translation = lit ''nan'',
          domain = lit ''general'', term_language = lit ''es'', google_language_code = None\<rparr>)]"
proof -
  have k: "py_strip ascii_python (str_lower ascii_python (lit ''printer'')) = lit ''printer''"
    by code_simp
  have n: "lit ''printer'' \<noteq> []" by (simp add: lit_def)
  have "fst (load_rows ascii_python (lit ''es'')
          [\<lparr>row_id = None, row_term = Some (CText (lit ''printer'')),
            row_translation = Some CNaN, row_domain = None\<rparr>] [])
       = (if py_strip ascii_python (str_lower ascii_python (lit ''printer'')) = [] then []
          else [(py_strip ascii_python (str_lower ascii_python (lit ''printer'')),
                 \<lparr>term_id = 1,
                  term_text = py_strip ascii_python (str_lower ascii_python (lit ''printer'')),
                  translation = lit ''nan'', domain = lit ''general'',
                  term_language = lit ''es'', google_language_code = None\<rparr>)])"
    using empty_fields_are_kept[of ascii_python "lit ''es''" "lit ''printer''"] by blast
  then show ?thesis unfolding k using n by simp
qed


end
